theory Spec2Isabelle
  imports Main
begin

section \<open>Characters and C strings\<close>

text \<open>
  A C \<open>char\<close> is one byte, modelled by \<^typ>\<open>char\<close>; \<open>of_char\<close> reads its value as a
  number in \<open>0..255\<close> and \<open>char_of\<close> stores a number back, keeping the low eight bits,
  as the conversion of an \<open>int\<close> to \<open>char\<close> does. The program never calls
  \<open>setlocale\<close>, so the classification functions of \<open>ctype.h\<close> are those of the "C"
  locale: only ASCII letters are letters, and a byte above 127 is in no class and is
  left alone by \<open>tolower\<close>.

  A C string is modelled by the list of its bytes before the terminating NUL, so
  \<open>strlen\<close> is \<^const>\<open>length\<close>.
\<close>

definition isupper :: "char \<Rightarrow> bool" where
  "isupper c = (let n = (of_char c :: nat) in 65 \<le> n \<and> n \<le> 90)"

definition islower :: "char \<Rightarrow> bool" where
  "islower c = (let n = (of_char c :: nat) in 97 \<le> n \<and> n \<le> 122)"

definition isalpha :: "char \<Rightarrow> bool" where
  "isalpha c = (isupper c \<or> islower c)"

definition ispunct :: "char \<Rightarrow> bool" where
  "ispunct c = (let n = (of_char c :: nat) in
     (33 \<le> n \<and> n \<le> 47) \<or> (58 \<le> n \<and> n \<le> 64) \<or>
     (91 \<le> n \<and> n \<le> 96) \<or> (123 \<le> n \<and> n \<le> 126))"

definition tolower :: "char \<Rightarrow> char" where
  "tolower c = (if isupper c then char_of ((of_char c :: nat) + 32) else c)"

text \<open>
  \<open>x + (upperCase ? ('A' - 'a') : 0)\<close> stored into a \<open>char\<close>: the offset is \<open>-32\<close>,
  which is \<open>224\<close> modulo \<open>256\<close>.
\<close>

definition add_case :: "nat \<Rightarrow> bool \<Rightarrow> char" where
  "add_case x upperCase = char_of (x + (if upperCase then 224 else 0))"

text \<open>
  \<open>strcmp(a, b) == 0\<close> on two buffers: the buffers are compared up to their first NUL.
  A buffer written by \<open>CypherToPlainString\<close> can hold a NUL in the middle (the value of
  an unassigned slot), which ends the string there for every reader.
\<close>

definition cstr :: "string \<Rightarrow> string" where
  "cstr buf = takeWhile (\<lambda>c. c \<noteq> CHR 0x00) buf"

definition strcmp_eq :: "string \<Rightarrow> string \<Rightarrow> bool" where
  "strcmp_eq a b = (cstr a = cstr b)"

section \<open>The data model\<close>

text \<open>
  \<open>legend_t\<close> is \<open>char map[26]\<close>: slot \<open>i\<close> holds the plain character of the cypher
  letter \<open>'a' + i\<close>, or \<open>0\<close> when the letter is unassigned. Every legend of the program
  has 26 slots (\<open>legend_ok\<close>).
\<close>

type_synonym legend = "char list"


definition empty_legend :: legend where
  "empty_legend = replicate 26 (CHR 0x00)"

text \<open>
  A legend built from a full bijection: its 26 slots hold the 26 lower-case letters,
  each once.
\<close>

definition alphabet :: string where
  "alphabet = ''abcdefghijklmnopqrstuvwxyz''"

definition full_bijection :: "legend \<Rightarrow> bool" where
  "full_bijection m = (length m = 26 \<and> distinct m \<and> set m = set alphabet)"

text \<open>
  \<open>cypherword_t\<close>: the cyphertext token and its array of possible plaintexts. The
  fields \<open>length\<close> and \<open>numberOfPossibles\<close> are the lengths of the two lists, and
  \<open>possiblePlaintextSize\<close> is the capacity of the array.
\<close>

record cypherword =
  cyphertext :: string
  possiblePlaintext :: "string list"

text \<open>
  An access outside an array is undefined behaviour in C. The model stops there with
  a fault instead of inventing a value.
\<close>

datatype fault = OutOfBounds

section \<open>Cypherword functions\<close>

text \<open>
  \<open>DoPatternsMatch\<close>. The two pointers may be \<open>NULL\<close> (\<open>None\<close>). The inner loop
  looks, for the pair at position \<open>i\<close>, at every later position \<open>j\<close>, and stops the
  whole search at the first position that repeats in one text and not in the other.
\<close>

function pm_inner :: "string \<Rightarrow> string \<Rightarrow> nat \<Rightarrow> char \<Rightarrow> char \<Rightarrow> nat \<Rightarrow> bool" where
  "pm_inner cy pl len cypherchar plainchar j =
     (if j < len then
        (if (cy ! j = cypherchar \<and> pl ! j \<noteq> plainchar) \<or>
            (pl ! j = plainchar \<and> cy ! j \<noteq> cypherchar)
         then False
         else pm_inner cy pl len cypherchar plainchar (Suc j))
      else True)"
  by pat_completeness auto
termination
  by (relation "measure (\<lambda>(cy, pl, len, cc, pc, j). len - j)") auto

declare pm_inner.simps [simp del]

function pm_outer :: "string \<Rightarrow> string \<Rightarrow> nat \<Rightarrow> nat \<Rightarrow> bool" where
  "pm_outer cy pl len i =
     (if i < len then
        (if pm_inner cy pl len (cy ! i) (pl ! i) (Suc i)
         then pm_outer cy pl len (Suc i)
         else False)
      else True)"
  by pat_completeness auto
termination
  by (relation "measure (\<lambda>(cy, pl, len, i). len - i)") auto

declare pm_outer.simps [simp del]

definition DoPatternsMatch :: "string option \<Rightarrow> string option \<Rightarrow> bool" where
  "DoPatternsMatch cypher plain =
     (case (cypher, plain) of
        (None, None) \<Rightarrow> True
      | (None, Some pl) \<Rightarrow> False
      | (Some cy, None) \<Rightarrow> False
      | (Some cy, Some pl) \<Rightarrow>
          (if length cy \<noteq> length pl then False
           else pm_outer cy pl (length cy) 0))"

section \<open>Legend functions\<close>

text \<open>
  \<open>CypherToPlainChar\<close> and \<open>PlainToCypherChar\<close>, for a legend that is not \<open>NULL\<close>
  (the \<open>NULL\<close> branch prints a message and returns 0). The slot index
  \<open>retval - 'a'\<close> is computed only under \<open>islower(retval)\<close>, so it is in \<open>0..25\<close>.
\<close>

definition CypherToPlainChar :: "legend \<Rightarrow> char \<Rightarrow> char" where
  "CypherToPlainChar m c =
     (let upperCase = isupper c;
          retval = (if upperCase then tolower c else c)
      in if islower retval
         then add_case (of_char (m ! (of_char retval - 97))) upperCase
         else retval)"

definition PlainToCypherChar :: "legend \<Rightarrow> char \<Rightarrow> char" where
  "PlainToCypherChar m c =
     (let upperCase = isupper c;
          retval = (if upperCase then tolower c else c)
      in if islower retval
         then (case find (\<lambda>i. m ! i = retval) [0..<26] of
                 Some i \<Rightarrow> add_case (i + 97) upperCase
               | None \<Rightarrow> retval)
         else retval)"

text \<open>
  The two string functions fill a fresh buffer of the same length, one character at a
  time. Memory allocation is taken to succeed here and below: the branches that run
  only when \<open>malloc\<close>, \<open>realloc\<close> or \<open>strdup\<close> return \<open>NULL\<close> are not part of the model.
\<close>

definition CypherToPlainString :: "legend \<Rightarrow> string \<Rightarrow> string" where
  "CypherToPlainString m cy = map (CypherToPlainChar m) cy"

definition PlainToCypherString :: "legend \<Rightarrow> string \<Rightarrow> string" where
  "PlainToCypherString m pl = map (PlainToCypherChar m) pl"

text \<open>
  \<open>CanCypherAndLegendMakePlain\<close>, for arguments that are not \<open>NULL\<close>. The loop carries
  the flag \<open>mismatch\<close>; only an unmapped character under \<open>mustBeComplete\<close> leaves the
  loop early.
\<close>

function ccl_loop :: "string \<Rightarrow> legend \<Rightarrow> string \<Rightarrow> bool \<Rightarrow> nat \<Rightarrow> bool \<Rightarrow> bool" where
  "ccl_loop cy m pl mustBeComplete i mismatch =
     (if i < length cy then
        (let ppc = CypherToPlainChar m (tolower (cy ! i)) in
         if ppc = CHR 0x00 \<and> mustBeComplete then True
         else ccl_loop cy m pl mustBeComplete (Suc i)
                (if ppc \<noteq> CHR 0x00 \<and> tolower ppc \<noteq> tolower (pl ! i) then True else mismatch))
      else mismatch)"
  by pat_completeness auto
termination
  by (relation "measure (\<lambda>(cy, m, pl, mbc, i, mm). length cy - i)") auto

declare ccl_loop.simps [simp del]

definition CanCypherAndLegendMakePlain :: "string \<Rightarrow> legend \<Rightarrow> string \<Rightarrow> bool \<Rightarrow> bool" where
  "CanCypherAndLegendMakePlain cy m pl mustBeComplete =
     (if length cy \<noteq> length pl then False
      else \<not> ccl_loop cy m pl mustBeComplete 0 False)"

text \<open>
  The acceptance condition of C4 in the words of the claim, to be compared with the
  function: position \<open>i\<close> is a mapped disagreement when the cypher character there is
  a letter, its slot is assigned, and the plain letter in the slot differs from the
  plaintext character there, both in lower case.
\<close>

definition mapped_disagreement :: "legend \<Rightarrow> string \<Rightarrow> string \<Rightarrow> nat \<Rightarrow> bool" where
  "mapped_disagreement m cy pl i =
     (isalpha (cy ! i) \<and> m ! (of_char (tolower (cy ! i)) - 97) \<noteq> CHR 0x00 \<and>
      tolower (m ! (of_char (tolower (cy ! i)) - 97)) \<noteq> tolower (pl ! i))"

definition no_mapped_disagreement :: "legend \<Rightarrow> string \<Rightarrow> string \<Rightarrow> bool" where
  "no_mapped_disagreement m cy pl =
     list_all (\<lambda>i. \<not> mapped_disagreement m cy pl i) [0..<length cy]"

text \<open>
  \<open>GetPossibleOfCypherwordForLegend\<close> returns a copy of the first possible plaintext
  that the legend can make, or \<open>NULL\<close>; \<open>IsCypherwordDecryptedByLegend\<close> asks for a
  complete decoding.
\<close>

definition GetPossibleOfCypherwordForLegend :: "cypherword \<Rightarrow> legend \<Rightarrow> bool \<Rightarrow> string option" where
  "GetPossibleOfCypherwordForLegend word m mustBeComplete =
     find (\<lambda>pl. CanCypherAndLegendMakePlain (cyphertext word) m pl mustBeComplete)
          (possiblePlaintext word)"

definition IsCypherwordDecryptedByLegend :: "cypherword \<Rightarrow> legend \<Rightarrow> bool" where
  "IsCypherwordDecryptedByLegend word m =
     (case GetPossibleOfCypherwordForLegend word m True of
        None \<Rightarrow> False
      | Some plaintext \<Rightarrow> True)"

section \<open>Extending a legend\<close>

text \<open>
  \<open>IncorporateCypherToPlainMapInLegend\<close>, for arguments that are not \<open>NULL\<close>. The
  legend is changed in place, so the model returns it with the flag \<open>!error\<close>: after
  a failure it is the legend as the loop left it, with the pairs stored before the
  failing position.

  The slot index \<open>cc - 'a'\<close> is computed for every character that is not punctuation.
  It lies in the array only when \<open>cc\<close> is a lower-case letter; for any other
  character (a digit, a blank, a byte above 127) the access is outside the array.
\<close>

function inc_loop :: "string \<Rightarrow> string \<Rightarrow> nat \<Rightarrow> nat \<Rightarrow> legend \<Rightarrow> fault + bool \<times> legend" where
  "inc_loop cy pl len i m =
     (if i < len then
        (let cc = tolower (cy ! i); pc = tolower (pl ! i) in
         if (ispunct cc \<and> \<not> ispunct pc) \<or> (\<not> ispunct cc \<and> ispunct pc) then Inr (False, m)
         else if ispunct cc \<and> ispunct pc then inc_loop cy pl len (Suc i) m
         else if \<not> islower cc then Inl OutOfBounds
         else
           (let k = of_char cc - 97 in
            if m ! k \<noteq> CHR 0x00 then
              (if m ! k \<noteq> pc then Inr (False, m)
               else inc_loop cy pl len (Suc i) (m[k := pc]))
            else
              (if list_ex (\<lambda>j. m ! j = pc) [0..<26] then Inr (False, m)
               else inc_loop cy pl len (Suc i) (m[k := pc]))))
      else Inr (True, m))"
  by pat_completeness auto
termination
  by (relation "measure (\<lambda>(cy, pl, len, i, m). len - i)") auto

declare inc_loop.simps [simp del]

definition IncorporateCypherToPlainMapInLegend ::
    "string \<Rightarrow> string \<Rightarrow> legend \<Rightarrow> fault + bool \<times> legend" where
  "IncorporateCypherToPlainMapInLegend cy pl m =
     (if length cy \<noteq> length pl then Inr (False, m)
      else inc_loop cy pl (length cy) 0 m)"





section \<open>The solving session\<close>

text \<open>
  The global variables the two solvers read: the array \<open>words\<close> (\<open>wordCount\<close> is its
  length) and \<open>initialCyphertext\<close>. \<open>clock n\<close> is the value that the \<open>n\<close>-th call of
  \<open>time(NULL)\<close> returns, counted from 0.
\<close>

record session =
  words :: "cypherword list"
  initialCyphertext :: string
  clock :: "nat \<Rightarrow> int"

text \<open>
  The state the solvers change: the array \<open>plainText\<close> of decodings found so far
  (\<open>plainTextCnt\<close> is its length, \<open>plainTextMaxCnt\<close> its capacity) and the number of
  calls of \<open>time(NULL)\<close> made so far. \<open>candidateTests\<close> is not a variable of the
  program: it counts the calls of \<open>CanCypherAndLegendMakePlain\<close> that
  \<open>DoWordBlockAttack\<close> has made, so that "no candidate was tested" can be stated.
\<close>

record solver_state =
  plainText :: "string list"
  timeCalls :: nat
  candidateTests :: nat

text \<open>
  Both solvers end a successful test with the same lines: look for the decoded text
  among the answers saved so far with \<open>strcmp\<close>, and append it when it is new.
\<close>

definition save_if_new :: "string \<Rightarrow> string list \<Rightarrow> string list" where
  "save_if_new decoded answers =
     (if list_ex (\<lambda>answer. strcmp_eq decoded answer) answers then answers
      else answers @ [decoded])"

section \<open>Frequency attack\<close>

text \<open>
  \<open>TestFreqAttackLegend\<close>, for a legend that is not \<open>NULL\<close>. The first loop counts
  the cypherwords the legend decrypts (\<open>hits\<close>) and records whether one was missed.
\<close>

definition count_hits :: "cypherword list \<Rightarrow> legend \<Rightarrow> nat \<times> bool" where
  "count_hits ws m =
     fold (\<lambda>w (hits, missed).
             if IsCypherwordDecryptedByLegend w m then (Suc hits, missed) else (hits, True))
          ws (0, False)"

definition TestFreqAttackLegend :: "session \<Rightarrow> legend \<Rightarrow> solver_state \<Rightarrow> solver_state" where
  "TestFreqAttackLegend g m st =
     (case count_hits (words g) m of
        (hits, missed) \<Rightarrow>
          if 0 < hits \<or> \<not> missed
          then st\<lparr>plainText :=
                    save_if_new (CypherToPlainString m (initialCyphertext g)) (plainText st)\<rparr>
          else st)"

section \<open>Word block attack\<close>

text \<open>
  \<open>DoWordBlockAttack\<close>. It returns \<open>!error\<close>; the model returns with it the legend
  the caller passed, as the call leaves it, and the new state. \<open>wb_loop\<close> is the loop
  over the possible plaintexts of \<open>words[cypherwordIndex]\<close>, from index \<open>i\<close> on.

  For the last cypherword the candidate is incorporated into the legend \<open>map\<close>
  itself. For any other cypherword it is incorporated into \<open>nextGenMap\<close>, a duplicate
  that is freed after the recursive call, whose result is not looked at.
  Reading \<open>words[cypherwordIndex]\<close> with an index that is not below \<open>wordCount\<close> is an
  access outside the array.

  The body of the loop is the inner \<open>case\<close> expression. It yields a fault, or a
  triple: whether the body left the loop with \<open>break\<close> (out of time, \<open>error\<close> set),
  the legend \<open>map\<close> after the body, and the state after the body. When the body
  did not break, the clock is read once more at the end of the iteration, and the
  loop goes on only if the budget is not used up.

  \<open>time(NULL)\<close> is a \<open>time_t\<close> of 64 bits, and so are the differences
  \<open>time(NULL) - startTime\<close> and \<open>maxSec - (time(NULL) - startTime)\<close>; they are
  computed on unbounded integers, which agrees while the clock stays far from
  \<open>2^63\<close>. \<open>startTime\<close> and \<open>remainingSec\<close> are \<open>int\<close> variables of 32 bits: storing into
  them keeps the low 32 bits, read as a signed number (\<open>to_int\<close>). The comparison at
  the end of an iteration is made on \<open>time_t\<close> and is not converted.
\<close>

definition to_int :: "int \<Rightarrow> int" where
  "to_int x = (x + 2147483648) mod 4294967296 - 2147483648"

function DoWordBlockAttack ::
    "session \<Rightarrow> nat \<Rightarrow> legend \<Rightarrow> int \<Rightarrow> solver_state \<Rightarrow> fault + bool \<times> legend \<times> solver_state"
  and wb_loop ::
    "session \<Rightarrow> nat \<Rightarrow> int \<Rightarrow> int \<Rightarrow> nat \<Rightarrow> legend \<Rightarrow> solver_state
       \<Rightarrow> fault + bool \<times> legend \<times> solver_state"
where
  "DoWordBlockAttack g cypherwordIndex m maxSec st =
     (let startTime = to_int (clock g (timeCalls st));
          st0 = st\<lparr>timeCalls := Suc (timeCalls st)\<rparr>
      in if maxSec \<le> 0 then Inr (False, m, st0)
         else wb_loop g cypherwordIndex maxSec startTime 0 m st0)"
| "wb_loop g cypherwordIndex maxSec startTime i m st =
     (if \<not> cypherwordIndex < length (words g) then Inl OutOfBounds
      else if \<not> i < length (possiblePlaintext (words g ! cypherwordIndex)) then Inr (True, m, st)
      else
        (let cy = cyphertext (words g ! cypherwordIndex);
             pl = possiblePlaintext (words g ! cypherwordIndex) ! i;
             st1 = st\<lparr>candidateTests := Suc (candidateTests st)\<rparr>
         in
         case
           (if CanCypherAndLegendMakePlain cy m pl False then
              (if Suc cypherwordIndex = length (words g) then
                 (case IncorporateCypherToPlainMapInLegend cy pl m of
                    Inl f \<Rightarrow> Inl f
                  | Inr (ok, m') \<Rightarrow>
                      Inr (False, m',
                        if ok
                        then st1\<lparr>plainText :=
                               save_if_new (CypherToPlainString m' (initialCyphertext g))
                                 (plainText st1)\<rparr>
                        else st1))
               else
                 (let remainingSec = to_int (maxSec - (clock g (timeCalls st1) - startTime));
                      st2 = st1\<lparr>timeCalls := Suc (timeCalls st1)\<rparr>
                  in if remainingSec \<le> 0 then Inr (True, m, st2)
                     else
                       (case IncorporateCypherToPlainMapInLegend cy pl m of
                          Inl f \<Rightarrow> Inl f
                        | Inr (ok, nextGenMap) \<Rightarrow>
                            if ok then
                              (case DoWordBlockAttack g (Suc cypherwordIndex) nextGenMap
                                      remainingSec st2 of
                                 Inl f \<Rightarrow> Inl f
                               | Inr (r, m2, st3) \<Rightarrow> Inr (False, m, st3))
                            else Inr (False, m, st2))))
            else Inr (False, m, st1))
         of
           Inl f \<Rightarrow> Inl f
         | Inr (broke, m1, st4) \<Rightarrow>
             if broke then Inr (False, m1, st4)
             else
               (let now = clock g (timeCalls st4);
                    st5 = st4\<lparr>timeCalls := Suc (timeCalls st4)\<rparr>
                in if now - startTime \<ge> maxSec then Inr (False, m1, st5)
                   else wb_loop g cypherwordIndex maxSec startTime (Suc i) m1 st5)))"
  by pat_completeness auto
termination
  by (relation "measures
        [\<lambda>x. case x of Inl (g, idx, m, maxSec, st) \<Rightarrow> length (words g) - idx
                      | Inr (g, idx, maxSec, startTime, i, m, st) \<Rightarrow> length (words g) - idx,
         \<lambda>x. case x of Inl (g, idx, m, maxSec, st) \<Rightarrow>
                          Suc (length (possiblePlaintext (words g ! idx)))
                      | Inr (g, idx, maxSec, startTime, i, m, st) \<Rightarrow>
                          length (possiblePlaintext (words g ! idx)) - i]")
     auto

declare DoWordBlockAttack.simps [simp del] wb_loop.simps [simp del]

section \<open>Properties of the character translation\<close>

lemma of_char_tolower:
  "(of_char (tolower c) :: nat) = (if isupper c then of_char c + 32 else of_char c)"
  by (auto simp: tolower_def isupper_def Let_def)

lemma islower_tolower: "isalpha c \<Longrightarrow> islower (tolower c)"
  by (auto simp: isalpha_def islower_def isupper_def Let_def of_char_tolower)

lemma tolower_idem_not_upper: "\<not> isupper c \<Longrightarrow> tolower c = c"
  by (simp add: tolower_def)

lemma not_upper_tolower: "\<not> isupper (tolower c)"
  by (auto simp: isupper_def Let_def of_char_tolower)

lemma islower_not_upper: "islower c \<Longrightarrow> \<not> isupper c"
  by (auto simp: islower_def isupper_def Let_def)

lemma islower_tolower_iff: "islower (tolower c) \<longleftrightarrow> isalpha c"
  by (auto simp: isalpha_def islower_def isupper_def Let_def of_char_tolower)

lemma add_case_False: "add_case (of_char x) False = x"
  by (simp add: add_case_def)

text \<open>What the legend makes of a character that was lowered first.\<close>

lemma CypherToPlainChar_tolower:
  "CypherToPlainChar m (tolower c) =
     (if isalpha c then m ! (of_char (tolower c) - 97) else c)"
  by (auto simp: CypherToPlainChar_def Let_def not_upper_tolower islower_tolower_iff
        add_case_False tolower_idem_not_upper isalpha_def)

lemma CypherToPlainChar_lower:
  "islower c \<Longrightarrow> CypherToPlainChar m c = m ! (of_char c - 97)"
  by (simp add: CypherToPlainChar_def Let_def islower_not_upper add_case_False)

lemma CypherToPlainChar_other:
  "\<not> isalpha c \<Longrightarrow> CypherToPlainChar m c = c"
  by (simp add: CypherToPlainChar_def Let_def isalpha_def)

lemma CypherToPlainChar_upper:
  "isupper c \<Longrightarrow> CypherToPlainChar m c = add_case (of_char (m ! (of_char c - 65))) True"
  by (auto simp: CypherToPlainChar_def Let_def islower_tolower isalpha_def of_char_tolower)

lemma add_case_True_lower:
  "islower x \<Longrightarrow> isupper (add_case (of_char x) True) \<and> tolower (add_case (of_char x) True) = x"
proof -
  assume low: "islower x"
  then have v: "(of_char (add_case (of_char x) True) :: nat) = of_char x - 32"
    by (auto simp: add_case_def islower_def Let_def mod_if)
  from low v have up: "isupper (add_case (of_char x) True)"
    by (auto simp: islower_def isupper_def Let_def)
  have "(of_char (tolower (add_case (of_char x) True)) :: nat) = of_char x"
    using low up v by (auto simp: of_char_tolower islower_def Let_def)
  then have "tolower (add_case (of_char x) True) = x"
    by (rule of_char_eqI)
  with up show ?thesis by simp
qed

text \<open>
  C5 at the input \<open>'A'\<close> with a legend that assigns nothing: the code adds the
  case offset to the value 0 of the unassigned slot and returns the byte \<open>0xE0\<close>,
  not the unassigned marker 0. For a lower-case letter, for an assigned slot and for
  a character that is not a letter the code does what C5 says
  (\<open>CypherToPlainChar_lower\<close>, \<open>CypherToPlainChar_upper\<close> with \<open>add_case_True_lower\<close>,
  \<open>CypherToPlainChar_other\<close>).
\<close>

theorem CypherToPlainChar_upper_unassigned:
  "CypherToPlainChar empty_legend (CHR ''A'') = CHR 0xE0 \<and> CHR 0xE0 \<noteq> CHR 0x00"
  by code_simp

section \<open>Properties of the pattern matcher\<close>

lemma pm_inner_sym: "pm_inner x y len a b j = pm_inner y x len b a j"
proof (induction x y len a b j rule: pm_inner.induct)
  case (1 cy pl len cypherchar plainchar j)
  show ?case
    using "1.IH" by (subst pm_inner.simps, subst (2) pm_inner.simps) auto
qed

lemma pm_outer_sym: "pm_outer x y len i = pm_outer y x len i"
proof (induction x y len i rule: pm_outer.induct)
  case (1 cy pl len i)
  show ?case
    using "1.IH"
    by (subst pm_outer.simps, subst (2) pm_outer.simps) (auto simp: pm_inner_sym [of cy pl])
qed

text \<open>
  C6, as the claim states it, fails when both inputs are \<open>NULL\<close>: the code answers
  that they match ("they are both NULL, so they match - sort-of...").
\<close>

theorem DoPatternsMatch_both_null_counterexample:
  "DoPatternsMatch None None = True"
  by (simp add: DoPatternsMatch_def)

text \<open>
  C6, amended: two \<open>NULL\<close> inputs match; when exactly one input is \<open>NULL\<close>, or both
  are strings and their lengths differ, the result is no-match.
\<close>

theorem DoPatternsMatch_no_match:
  "DoPatternsMatch None None \<and>
   ((cypher = None \<and> plain \<noteq> None) \<or> (cypher \<noteq> None \<and> plain = None) \<or>
    (\<exists>cy pl. cypher = Some cy \<and> plain = Some pl \<and> length cy \<noteq> length pl)
    \<longrightarrow> \<not> DoPatternsMatch cypher plain)"
  by (auto simp: DoPatternsMatch_def split: option.splits)

theorem DoPatternsMatch_no_match_witness:
  "\<not> DoPatternsMatch None (Some ''a'') \<and> \<not> DoPatternsMatch (Some ''a'') None \<and>
   length ''ab'' \<noteq> length ''abc'' \<and> \<not> DoPatternsMatch (Some ''ab'') (Some ''abc'')"
  using DoPatternsMatch_no_match [of None "Some ''a''"]
    DoPatternsMatch_no_match [of "Some ''a''" None]
    DoPatternsMatch_no_match [of "Some ''ab''" "Some ''abc''"]
  by simp

text \<open>
  C7: for two strings of equal length, matching the patterns of \<open>x\<close> and \<open>y\<close> gives
  the same answer as matching the patterns of \<open>y\<close> and \<open>x\<close>.
\<close>

theorem DoPatternsMatch_symmetric:
  "length x = length y \<Longrightarrow>
   DoPatternsMatch (Some x) (Some y) = DoPatternsMatch (Some y) (Some x)"
  by (simp add: DoPatternsMatch_def pm_outer_sym [of x y])

theorem DoPatternsMatch_symmetric_witness:
  "length ''xyyx'' = length ''kaak'' \<and> DoPatternsMatch (Some ''xyyx'') (Some ''kaak'')
     \<and> DoPatternsMatch (Some ''kaak'') (Some ''xyyx'')"
proof -
  have h: "length ''xyyx'' = length ''kaak''" by simp
  have "DoPatternsMatch (Some ''xyyx'') (Some ''kaak'')" by code_simp
  with DoPatternsMatch_symmetric [OF h] show ?thesis by simp
qed

section \<open>Properties of extending a legend\<close>














text \<open>
  C10: when the two strings differ in length, the call returns failure and the
  legend it returns is the legend it was given, slot for slot.
\<close>

theorem Incorporate_unequal_length:
  "length cy \<noteq> length pl \<Longrightarrow> IncorporateCypherToPlainMapInLegend cy pl m = Inr (False, m)"
  by (simp add: IncorporateCypherToPlainMapInLegend_def)

theorem Incorporate_unequal_length_witness:
  "length ''ab'' \<noteq> length ''xyz'' \<and>
   IncorporateCypherToPlainMapInLegend ''ab'' ''xyz'' empty_legend = Inr (False, empty_legend)"
  using Incorporate_unequal_length [of "''ab''" "''xyz''" empty_legend] by simp

section \<open>Properties of the legend test\<close>

lemma ex_from_split:
  "i < n \<Longrightarrow>
   (\<exists>k. i \<le> k \<and> k < n \<and> P k) \<longleftrightarrow> P i \<or> (\<exists>k. Suc i \<le> k \<and> k < (n::nat) \<and> P k)"
proof
  assume "i < n" "\<exists>k. i \<le> k \<and> k < n \<and> P k"
  then obtain k where k: "i \<le> k" "k < n" "P k" by blast
  show "P i \<or> (\<exists>k. Suc i \<le> k \<and> k < n \<and> P k)"
  proof (cases "k = i")
    case True with k show ?thesis by simp
  next
    case False with k have "Suc i \<le> k" by simp
    with k show ?thesis by blast
  qed
next
  assume "i < n" "P i \<or> (\<exists>k. Suc i \<le> k \<and> k < n \<and> P k)"
  then show "\<exists>k. i \<le> k \<and> k < n \<and> P k"
    by (metis Suc_leD order_refl)
qed

text \<open>
  The loop reports a mismatch exactly when the flag was already set or some position
  from \<open>i\<close> on is bad: unmapped while the decoding must be complete, or mapped to a
  character that differs from the plaintext.
\<close>

lemma ccl_loop_iff:
  "ccl_loop cy m pl mbc i mm \<longleftrightarrow>
     mm \<or> (\<exists>k. i \<le> k \<and> k < length cy \<and>
        ((CypherToPlainChar m (tolower (cy ! k)) = CHR 0x00 \<and> mbc) \<or>
         (CypherToPlainChar m (tolower (cy ! k)) \<noteq> CHR 0x00 \<and>
          tolower (CypherToPlainChar m (tolower (cy ! k))) \<noteq> tolower (pl ! k))))"
proof (induction cy m pl mbc i mm rule: ccl_loop.induct)
  case (1 cy m pl mbc i mm)
  define ppc where "ppc = (\<lambda>k. CypherToPlainChar m (tolower (cy ! k)))"
  define bad where "bad = (\<lambda>k. (ppc k = CHR 0x00 \<and> mbc) \<or>
         (ppc k \<noteq> CHR 0x00 \<and> tolower (ppc k) \<noteq> tolower (pl ! k)))"
  have goal: "ccl_loop cy m pl mbc i mm \<longleftrightarrow> mm \<or> (\<exists>k. i \<le> k \<and> k < length cy \<and> bad k)"
  proof (cases "i < length cy")
    case False
    then show ?thesis by (subst ccl_loop.simps) auto
  next
    case True
    note split = ex_from_split [OF True, of bad]
    show ?thesis
    proof (cases "ppc i = CHR 0x00 \<and> mbc")
      case stop: True
      then have "ccl_loop cy m pl mbc i mm" using True
        by (subst ccl_loop.simps) (simp add: Let_def ppc_def)
      moreover have "bad i" using stop by (simp add: bad_def)
      ultimately show ?thesis using split by blast
    next
      case go: False
      define mm' where "mm' = (if ppc i \<noteq> CHR 0x00 \<and> tolower (ppc i) \<noteq> tolower (pl ! i)
               then True else mm)"
      have "ccl_loop cy m pl mbc i mm = ccl_loop cy m pl mbc (Suc i) mm'"
        using True go by (subst ccl_loop.simps) (auto simp add: Let_def ppc_def mm'_def)
      also have "\<dots> \<longleftrightarrow> mm' \<or> (\<exists>k. Suc i \<le> k \<and> k < length cy \<and> bad k)"
        using "1.IH" [OF True refl] go unfolding ppc_def bad_def mm'_def by blast
      also have "mm' \<longleftrightarrow> mm \<or> bad i"
        using go by (auto simp: mm'_def bad_def)
      finally show ?thesis using split by blast
    qed
  qed
  then show ?case unfolding bad_def ppc_def .
qed

text \<open>
  C4, as the claim states it, fails at a character that is not a letter. The legend
  maps only \<open>a\<close>, to \<open>x\<close>; the cyphertext is \<open>a-b\<close> and the plaintext \<open>x.y\<close>. The only
  position whose cypher character the legend maps is the first, and it agrees, so
  the claim accepts the pair. The code passes \<open>-\<close> through the legend as itself,
  compares it with \<open>.\<close> and rejects the pair.
\<close>

theorem CanCypherAndLegendMakePlain_punctuation_counterexample:
  "length ''a-b'' = length ''x.y'' \<and>
   no_mapped_disagreement (empty_legend[0 := CHR ''x'']) ''a-b'' ''x.y'' \<and>
   \<not> CanCypherAndLegendMakePlain ''a-b'' (empty_legend[0 := CHR ''x'']) ''x.y'' False"
  by code_simp

text \<open>
  C4, amended: take a legend and two strings of equal length. With \<open>mustBeComplete\<close>
  true the result is false whenever some position holds a letter whose slot is
  unassigned. With \<open>mustBeComplete\<close> false the pair is accepted exactly when no
  position disagrees, where a position disagrees in one of two ways: its cypher
  character is a letter whose slot is assigned, and the plain character in the slot
  differs from the plaintext character there; or its cypher character is not a
  letter (and, as a character of a C string, not NUL) and differs from the plaintext
  character there. Both comparisons are made in lower case.
\<close>

theorem CanCypherAndLegendMakePlain_completeness:
  "length cy = length pl \<Longrightarrow>
   ((\<exists>i<length cy. isalpha (cy ! i) \<and> m ! (of_char (tolower (cy ! i)) - 97) = CHR 0x00)
      \<longrightarrow> \<not> CanCypherAndLegendMakePlain cy m pl True) \<and>
   (CanCypherAndLegendMakePlain cy m pl False \<longleftrightarrow>
      (\<forall>i<length cy.
         (isalpha (cy ! i) \<and> m ! (of_char (tolower (cy ! i)) - 97) \<noteq> CHR 0x00 \<longrightarrow>
            tolower (m ! (of_char (tolower (cy ! i)) - 97)) = tolower (pl ! i)) \<and>
         (\<not> isalpha (cy ! i) \<and> cy ! i \<noteq> CHR 0x00 \<longrightarrow>
            tolower (cy ! i) = tolower (pl ! i))))"
proof (intro conjI impI)
  assume len: "length cy = length pl"
  assume "\<exists>i<length cy. isalpha (cy ! i) \<and> m ! (of_char (tolower (cy ! i)) - 97) = CHR 0x00"
  then obtain i where i: "i < length cy" "isalpha (cy ! i)"
      "m ! (of_char (tolower (cy ! i)) - 97) = CHR 0x00" by blast
  then have "CypherToPlainChar m (tolower (cy ! i)) = CHR 0x00"
    by (simp add: CypherToPlainChar_tolower)
  with i(1) have "ccl_loop cy m pl True 0 False"
    unfolding ccl_loop_iff by blast
  then show "\<not> CanCypherAndLegendMakePlain cy m pl True"
    by (simp add: CanCypherAndLegendMakePlain_def)
next
  assume len: "length cy = length pl"
  define slot where "slot = (\<lambda>i. m ! (of_char (tolower (cy ! i)) - 97))"
  define bad where "bad = (\<lambda>i. CypherToPlainChar m (tolower (cy ! i)) \<noteq> CHR 0x00 \<and>
          tolower (CypherToPlainChar m (tolower (cy ! i))) \<noteq> tolower (pl ! i))"
  define good where "good = (\<lambda>i.
         (isalpha (cy ! i) \<and> slot i \<noteq> CHR 0x00 \<longrightarrow> tolower (slot i) = tolower (pl ! i)) \<and>
         (\<not> isalpha (cy ! i) \<and> cy ! i \<noteq> CHR 0x00 \<longrightarrow> tolower (cy ! i) = tolower (pl ! i)))"
  have pointwise: "\<And>i. bad i \<longleftrightarrow> \<not> good i"
    unfolding bad_def good_def slot_def CypherToPlainChar_tolower by auto
  have "ccl_loop cy m pl False 0 False \<longleftrightarrow> (\<exists>k<length cy. bad k)"
    unfolding ccl_loop_iff bad_def by simp
  moreover have "CanCypherAndLegendMakePlain cy m pl False \<longleftrightarrow>
                 \<not> ccl_loop cy m pl False 0 False"
    using len by (simp add: CanCypherAndLegendMakePlain_def)
  ultimately have "CanCypherAndLegendMakePlain cy m pl False \<longleftrightarrow> (\<forall>i<length cy. good i)"
    using pointwise by blast
  then show "CanCypherAndLegendMakePlain cy m pl False \<longleftrightarrow>
      (\<forall>i<length cy.
         (isalpha (cy ! i) \<and> m ! (of_char (tolower (cy ! i)) - 97) \<noteq> CHR 0x00 \<longrightarrow>
            tolower (m ! (of_char (tolower (cy ! i)) - 97)) = tolower (pl ! i)) \<and>
         (\<not> isalpha (cy ! i) \<and> cy ! i \<noteq> CHR 0x00 \<longrightarrow>
            tolower (cy ! i) = tolower (pl ! i)))"
    unfolding good_def slot_def .
qed

text \<open>
  The witness: the legend maps only \<open>a\<close>, to \<open>x\<close>, and the cyphertext is \<open>A-b\<close>. The
  complete test fails on the unassigned \<open>b\<close>. With holes allowed \<open>X-y\<close> is accepted,
  \<open>x.y\<close> is rejected at the punctuation, and \<open>z-y\<close> is rejected at the mapped letter.
\<close>

theorem CanCypherAndLegendMakePlain_completeness_witness:
  "length ''A-b'' = length ''X-y'' \<and>
   \<not> CanCypherAndLegendMakePlain ''A-b'' (empty_legend[0 := CHR ''x'']) ''X-y'' True \<and>
   CanCypherAndLegendMakePlain ''A-b'' (empty_legend[0 := CHR ''x'']) ''X-y'' False \<and>
   \<not> CanCypherAndLegendMakePlain ''A-b'' (empty_legend[0 := CHR ''x'']) ''x.y'' False \<and>
   \<not> CanCypherAndLegendMakePlain ''A-b'' (empty_legend[0 := CHR ''x'']) ''z-y'' False"
proof -
  let ?m = "empty_legend[0 := CHR ''x'']"
  let ?cy = "''A-b''"
  have h1: "length ?cy = length ''X-y''" by simp
  have h2: "length ?cy = length ''x.y''" by simp
  have h3: "length ?cy = length ''z-y''" by simp
  have "(2::nat) < length ?cy \<and> isalpha (?cy ! 2) \<and>
        ?m ! (of_char (tolower (?cy ! 2)) - 97) = CHR 0x00"
    by code_simp
  then have unmapped: "\<exists>i<length ?cy. isalpha (?cy ! i) \<and>
        ?m ! (of_char (tolower (?cy ! i)) - 97) = CHR 0x00"
    by blast
  have agree: "CanCypherAndLegendMakePlain ?cy ?m ''X-y'' False" by code_simp
  have "(1::nat) < length ?cy \<and> \<not> isalpha (?cy ! 1) \<and> ?cy ! 1 \<noteq> CHR 0x00 \<and>
        tolower (?cy ! 1) \<noteq> tolower (''x.y'' ! 1)"
    by code_simp
  then have punct: "\<not> (\<forall>i<length ?cy.
         (isalpha (?cy ! i) \<and> ?m ! (of_char (tolower (?cy ! i)) - 97) \<noteq> CHR 0x00 \<longrightarrow>
            tolower (?m ! (of_char (tolower (?cy ! i)) - 97)) = tolower (''x.y'' ! i)) \<and>
         (\<not> isalpha (?cy ! i) \<and> ?cy ! i \<noteq> CHR 0x00 \<longrightarrow>
            tolower (?cy ! i) = tolower (''x.y'' ! i)))"
    by blast
  have "(0::nat) < length ?cy \<and> isalpha (?cy ! 0) \<and>
        ?m ! (of_char (tolower (?cy ! 0)) - 97) \<noteq> CHR 0x00 \<and>
        tolower (?m ! (of_char (tolower (?cy ! 0)) - 97)) \<noteq> tolower (''z-y'' ! 0)"
    by code_simp
  then have letter: "\<not> (\<forall>i<length ?cy.
         (isalpha (?cy ! i) \<and> ?m ! (of_char (tolower (?cy ! i)) - 97) \<noteq> CHR 0x00 \<longrightarrow>
            tolower (?m ! (of_char (tolower (?cy ! i)) - 97)) = tolower (''z-y'' ! i)) \<and>
         (\<not> isalpha (?cy ! i) \<and> ?cy ! i \<noteq> CHR 0x00 \<longrightarrow>
            tolower (?cy ! i) = tolower (''z-y'' ! i)))"
    by blast
  from CanCypherAndLegendMakePlain_completeness [OF h1, of ?m] unmapped
  have r1: "\<not> CanCypherAndLegendMakePlain ?cy ?m ''X-y'' True" by blast
  from CanCypherAndLegendMakePlain_completeness [OF h2, of ?m] punct
  have r2: "\<not> CanCypherAndLegendMakePlain ?cy ?m ''x.y'' False" by blast
  from CanCypherAndLegendMakePlain_completeness [OF h3, of ?m] letter
  have r3: "\<not> CanCypherAndLegendMakePlain ?cy ?m ''z-y'' False" by blast
  from h1 r1 agree r2 r3 show ?thesis by blast
qed

section \<open>The legend round trip\<close>

lemma islower_alphabet: "islower c \<longleftrightarrow> c \<in> set alphabet"
proof
  assume "c \<in> set alphabet"
  then show "islower c"
    by (auto simp: alphabet_def islower_def Let_def)
next
  assume low: "islower c"
  define n where "n = (of_char c :: nat)"
  have c: "c = char_of n" by (simp add: n_def)
  from low have "n \<in> {97..<123}" by (simp add: islower_def Let_def n_def)
  also have "{97..<123} = set [97..<123::nat]" by (rule set_upt [symmetric])
  finally have "n \<in> set [97..<123]" .
  then have "char_of n \<in> char_of ` set [97..<123::nat]" by (rule imageI)
  also have "char_of ` set [97..<123::nat] = set (map char_of [97..<123::nat])" by simp
  also have "map char_of [97..<123::nat] = alphabet" by code_simp
  finally show "c \<in> set alphabet" using c by simp
qed

text \<open>The back-search of \<open>PlainToCypherChar\<close> finds a slot for every character of the legend.\<close>

lemma find_slot:
  assumes "length m = 26" "c \<in> set m"
  obtains i where "find (\<lambda>i. m ! i = c) [0..<26] = Some i" "i < 26" "m ! i = c"
proof -
  from assms obtain k where "k < 26" "m ! k = c" by (metis in_set_conv_nth)
  then have "find (\<lambda>i. m ! i = c) [0..<26] \<noteq> None"
    by (auto simp: find_None_iff)
  then obtain i where f: "find (\<lambda>i. m ! i = c) [0..<26] = Some i" by blast
  then have "i < 26 \<and> m ! i = c"
    by (auto simp: find_Some_iff)
  with f that show thesis by blast
qed

lemma roundtrip_char:
  assumes fb: "full_bijection m" and al: "isalpha c"
  shows "CypherToPlainChar m (PlainToCypherChar m c) = c"
proof (cases "isupper c")
  case False
  with al have low: "islower c" by (simp add: isalpha_def)
  then have "c \<in> set m" using fb by (simp add: full_bijection_def islower_alphabet)
  with fb obtain i where i: "find (\<lambda>i. m ! i = c) [0..<26] = Some i" "i < 26" "m ! i = c"
    by (auto simp: full_bijection_def elim: find_slot)
  have enc: "PlainToCypherChar m c = add_case (i + 97) False"
    using False low i(1) by (simp add: PlainToCypherChar_def Let_def)
  have v: "(of_char (add_case (i + 97) False) :: nat) = i + 97"
    using i(2) by (simp add: add_case_def)
  then have "islower (add_case (i + 97) False)"
    using i(2) by (simp add: islower_def Let_def)
  then have "CypherToPlainChar m (add_case (i + 97) False) = m ! i"
    using v by (simp add: CypherToPlainChar_lower)
  with enc i(3) show ?thesis by simp
next
  case True
  then have low: "islower (tolower c)" by (simp add: islower_tolower isalpha_def)
  then have "tolower c \<in> set m" using fb by (simp add: full_bijection_def islower_alphabet)
  with fb obtain i where i: "find (\<lambda>i. m ! i = tolower c) [0..<26] = Some i" "i < 26"
      "m ! i = tolower c"
    by (auto simp: full_bijection_def elim: find_slot)
  have enc: "PlainToCypherChar m c = add_case (i + 97) True"
    using True low i(1) by (simp add: PlainToCypherChar_def Let_def)
  have v: "(of_char (add_case (i + 97) True) :: nat) = i + 65"
    using i(2) by (simp add: add_case_def mod_if)
  then have up: "isupper (add_case (i + 97) True)"
    using i(2) by (simp add: isupper_def Let_def)
  have "CypherToPlainChar m (add_case (i + 97) True) = add_case (of_char (m ! i)) True"
    using up v by (simp add: CypherToPlainChar_upper)
  also have "\<dots> = add_case (of_char (tolower c)) True" using i(3) by simp
  also have "\<dots> = c"
  proof (rule of_char_eqI [where ?'a = nat])
    show "of_char (add_case (of_char (tolower c)) True) = (of_char c :: nat)"
      using True by (auto simp: add_case_def of_char_tolower isupper_def Let_def mod_if)
  qed
  finally show ?thesis using enc by simp
qed

text \<open>
  C8: for a legend whose 26 slots are a full bijection of the lower-case alphabet and
  a string \<open>P\<close> of letters, encoding \<open>P\<close> with \<open>PlainToCypherString\<close> and decoding the
  result with \<open>CypherToPlainString\<close> gives \<open>P\<close> back.
\<close>

theorem legend_round_trip:
  "full_bijection m \<Longrightarrow> list_all isalpha P \<Longrightarrow>
   CypherToPlainString m (PlainToCypherString m P) = P"
  by (induction P) (simp_all add: CypherToPlainString_def PlainToCypherString_def roundtrip_char)

theorem legend_round_trip_witness:
  "full_bijection ''qwertyuiopasdfghjklzxcvbnm'' \<and> list_all isalpha ''HelloWorld'' \<and>
   PlainToCypherString ''qwertyuiopasdfghjklzxcvbnm'' ''HelloWorld'' = ''PcssiBidsm'' \<and>
   CypherToPlainString ''qwertyuiopasdfghjklzxcvbnm'' ''PcssiBidsm'' = ''HelloWorld''"
proof -
  have h1: "full_bijection ''qwertyuiopasdfghjklzxcvbnm''" by code_simp
  have h2: "list_all isalpha ''HelloWorld''" by code_simp
  have e: "PlainToCypherString ''qwertyuiopasdfghjklzxcvbnm'' ''HelloWorld'' = ''PcssiBidsm''"
    by code_simp
  from legend_round_trip [OF h1 h2] e h1 h2 show ?thesis by simp
qed

section \<open>Properties of the frequency attack test\<close>

lemma IsCypherwordDecryptedByLegend_iff:
  "IsCypherwordDecryptedByLegend w m \<longleftrightarrow>
     (\<exists>pl\<in>set (possiblePlaintext w). CanCypherAndLegendMakePlain (cyphertext w) m pl True)"
proof -
  have "IsCypherwordDecryptedByLegend w m \<longleftrightarrow>
        find (\<lambda>pl. CanCypherAndLegendMakePlain (cyphertext w) m pl True) (possiblePlaintext w)
          \<noteq> None"
    by (simp add: IsCypherwordDecryptedByLegend_def GetPossibleOfCypherwordForLegend_def
          split: option.splits)
  then show ?thesis by (simp add: find_None_iff Bex_def)
qed

lemma fold_hits:
  "fold (\<lambda>w (hits, missed). if D w then (Suc hits, missed) else (hits, True)) ws (h, ms)
     = (h + length (filter D ws), ms \<or> (\<exists>w\<in>set ws. \<not> D w))"
  by (induction ws arbitrary: h ms) auto

lemma count_hits_eq:
  "count_hits ws m =
     (length (filter (\<lambda>w. IsCypherwordDecryptedByLegend w m) ws),
      \<exists>w\<in>set ws. \<not> IsCypherwordDecryptedByLegend w m)"
  by (simp add: count_hits_def fold_hits)

lemma save_if_new_eq:
  "save_if_new decoded answers =
     (if \<exists>answer\<in>set answers. strcmp_eq decoded answer then answers else answers @ [decoded])"
  by (simp add: save_if_new_def list_ex_iff)

text \<open>
  C3: \<open>TestFreqAttackLegend\<close> changes nothing but the collection \<open>plainText\<close>. It
  appends the decoding of the whole cyphertext exactly when the legend decrypts at
  least one cypherword completely into one of its possible plaintexts, or misses no
  cypherword, and \<open>strcmp\<close> finds the decoding equal to no answer already saved.
  Otherwise the collection is as it was.
\<close>

theorem TestFreqAttackLegend_adds_iff:
  "TestFreqAttackLegend g m st =
     st\<lparr>plainText :=
       (if ((\<exists>w\<in>set (words g). \<exists>pl\<in>set (possiblePlaintext w).
                CanCypherAndLegendMakePlain (cyphertext w) m pl True) \<or>
            (\<forall>w\<in>set (words g). \<exists>pl\<in>set (possiblePlaintext w).
                CanCypherAndLegendMakePlain (cyphertext w) m pl True)) \<and>
           \<not> (\<exists>answer\<in>set (plainText st).
                 strcmp_eq (CypherToPlainString m (initialCyphertext g)) answer)
        then plainText st @ [CypherToPlainString m (initialCyphertext g)]
        else plainText st)\<rparr>"
proof -
  define D where "D = (\<lambda>w :: cypherword. \<exists>pl\<in>set (possiblePlaintext w).
                CanCypherAndLegendMakePlain (cyphertext w) m pl True)"
  define decoded where "decoded = CypherToPlainString m (initialCyphertext g)"
  have hits: "count_hits (words g) m =
                (length (filter D (words g)), \<exists>w\<in>set (words g). \<not> D w)"
    by (simp add: count_hits_eq D_def IsCypherwordDecryptedByLegend_iff)
  have pos: "0 < length (filter D (words g)) \<longleftrightarrow> (\<exists>w\<in>set (words g). D w)"
    by (simp add: filter_empty_conv)
  have same: "st\<lparr>plainText := plainText st\<rparr> = st" by simp
  have "TestFreqAttackLegend g m st =
     (if (\<exists>w\<in>set (words g). D w) \<or> (\<forall>w\<in>set (words g). D w)
      then st\<lparr>plainText := save_if_new decoded (plainText st)\<rparr>
      else st)"
    unfolding TestFreqAttackLegend_def hits decoded_def [symmetric] using pos by simp
  also have "\<dots> = st\<lparr>plainText :=
       (if ((\<exists>w\<in>set (words g). D w) \<or> (\<forall>w\<in>set (words g). D w)) \<and>
           \<not> (\<exists>answer\<in>set (plainText st). strcmp_eq decoded answer)
        then plainText st @ [decoded]
        else plainText st)\<rparr>"
    using same by (simp add: save_if_new_eq)
  finally show ?thesis unfolding D_def decoded_def .
qed

text \<open>
  The witness: two cypherwords, a legend that decrypts the first and leaves the letter
  of the second unassigned. One hit is enough, so the decoding is saved; a second
  test with the same legend finds it there and saves nothing.
\<close>

theorem TestFreqAttackLegend_adds_iff_witness:
  "TestFreqAttackLegend
     \<lparr>words = [\<lparr>cyphertext = ''ab'', possiblePlaintext = [''xy'']\<rparr>,
               \<lparr>cyphertext = ''c'', possiblePlaintext = [''q'']\<rparr>],
      initialCyphertext = ''ab c'', clock = (\<lambda>n. 0)\<rparr>
     (empty_legend[0 := CHR ''x'', 1 := CHR ''y''])
     \<lparr>plainText = [], timeCalls = 0, candidateTests = 0\<rparr>
   = \<lparr>plainText = [[CHR ''x'', CHR ''y'', CHR '' '', CHR 0x00]], timeCalls = 0,
      candidateTests = 0\<rparr> \<and>
   TestFreqAttackLegend
     \<lparr>words = [\<lparr>cyphertext = ''ab'', possiblePlaintext = [''xy'']\<rparr>,
               \<lparr>cyphertext = ''c'', possiblePlaintext = [''q'']\<rparr>],
      initialCyphertext = ''ab c'', clock = (\<lambda>n. 0)\<rparr>
     (empty_legend[0 := CHR ''x'', 1 := CHR ''y''])
     \<lparr>plainText = [''xy ''], timeCalls = 0, candidateTests = 0\<rparr>
   = \<lparr>plainText = [''xy ''], timeCalls = 0, candidateTests = 0\<rparr>"
proof -
  let ?g = "\<lparr>words = [\<lparr>cyphertext = ''ab'', possiblePlaintext = [''xy'']\<rparr>,
               \<lparr>cyphertext = ''c'', possiblePlaintext = [''q'']\<rparr>],
      initialCyphertext = ''ab c'', clock = (\<lambda>n. 0::int)\<rparr>"
  let ?m = "empty_legend[0 := CHR ''x'', 1 := CHR ''y'']"
  let ?st1 = "\<lparr>plainText = [], timeCalls = 0, candidateTests = 0\<rparr>"
  let ?st2 = "\<lparr>plainText = [''xy ''], timeCalls = 0, candidateTests = 0\<rparr>"
  have hit: "\<exists>w\<in>set (words ?g). \<exists>pl\<in>set (possiblePlaintext w).
                CanCypherAndLegendMakePlain (cyphertext w) ?m pl True"
    by code_simp
  have decoded: "CypherToPlainString ?m (initialCyphertext ?g)
                   = [CHR ''x'', CHR ''y'', CHR '' '', CHR 0x00]"
    by code_simp
  have new: "\<not> (\<exists>answer\<in>set (plainText ?st1).
                 strcmp_eq (CypherToPlainString ?m (initialCyphertext ?g)) answer)"
    by simp
  have old: "\<exists>answer\<in>set (plainText ?st2).
                 strcmp_eq (CypherToPlainString ?m (initialCyphertext ?g)) answer"
    by code_simp
  have "TestFreqAttackLegend ?g ?m ?st1
          = ?st1\<lparr>plainText := plainText ?st1 @ [CypherToPlainString ?m (initialCyphertext ?g)]\<rparr>"
    using TestFreqAttackLegend_adds_iff [of ?g ?m ?st1] hit new by presburger
  moreover have "TestFreqAttackLegend ?g ?m ?st2 = ?st2\<lparr>plainText := plainText ?st2\<rparr>"
    using TestFreqAttackLegend_adds_iff [of ?g ?m ?st2] old by presburger
  ultimately show ?thesis using decoded by simp
qed

section \<open>Properties of the word block attack\<close>

text \<open>
  C9: with a time budget of zero or less the call returns failure at once. The legend
  comes back as it was passed, and of the state only the count of clock readings has
  changed (\<open>startTime\<close> was read): the result collection is the same and no candidate
  was tested. This holds for every session, index and legend.
\<close>

theorem DoWordBlockAttack_no_time:
  "maxSec \<le> 0 \<Longrightarrow>
   DoWordBlockAttack g cypherwordIndex m maxSec st
     = Inr (False, m, st\<lparr>timeCalls := Suc (timeCalls st)\<rparr>)"
  by (simp add: DoWordBlockAttack.simps)

theorem DoWordBlockAttack_no_time_witness:
  "(0::int) \<le> 0 \<and> (-5::int) \<le> 0 \<and>
   DoWordBlockAttack
     \<lparr>words = [\<lparr>cyphertext = ''ab'', possiblePlaintext = [''xy'', ''pq'']\<rparr>],
      initialCyphertext = ''ab'', clock = (\<lambda>n. 0)\<rparr>
     0 empty_legend 0 \<lparr>plainText = [], timeCalls = 0, candidateTests = 0\<rparr>
   = Inr (False, empty_legend, \<lparr>plainText = [], timeCalls = 1, candidateTests = 0\<rparr>) \<and>
   DoWordBlockAttack
     \<lparr>words = [\<lparr>cyphertext = ''ab'', possiblePlaintext = [''xy'', ''pq'']\<rparr>],
      initialCyphertext = ''ab'', clock = (\<lambda>n. 0)\<rparr>
     0 empty_legend (-5) \<lparr>plainText = [''xy''], timeCalls = 7, candidateTests = 3\<rparr>
   = Inr (False, empty_legend, \<lparr>plainText = [''xy''], timeCalls = 8, candidateTests = 3\<rparr>)"
proof -
  have z: "(0::int) \<le> 0" and n: "(-5::int) \<le> 0" by simp_all
  show ?thesis
    using DoWordBlockAttack_no_time [OF z] DoWordBlockAttack_no_time [OF n] by simp
qed

text \<open>
  On a cypherword that is not the last one the legend of the caller is only read:
  every candidate is incorporated into a duplicate, and the call returns the legend
  it was given.
\<close>

lemma wb_frame:
  "Suc cypherwordIndex < length (words g) \<Longrightarrow>
     DoWordBlockAttack g cypherwordIndex m maxSec st = Inr (r, m', st') \<Longrightarrow> m' = m"
  "Suc cypherwordIndex < length (words g) \<Longrightarrow>
     wb_loop g cypherwordIndex maxSec startTime i m st = Inr (r, m', st') \<Longrightarrow> m' = m"
proof (induction g cypherwordIndex m maxSec st and g cypherwordIndex maxSec startTime i m st
       arbitrary: r m' st' and r m' st' rule: DoWordBlockAttack_wb_loop.induct)
  case (1 g cypherwordIndex m maxSec st)
  from "1.prems"(2) show ?case
    apply (subst (asm) DoWordBlockAttack.simps)
    apply (simp add: Let_def split: if_splits)
    using "1.IH" "1.prems"(1) by blast
next
  case (2 g cypherwordIndex maxSec startTime i m st)
  note notlast = "2.prems"(1)
  then have idx: "cypherwordIndex < length (words g)" and nl: "Suc cypherwordIndex \<noteq> length (words g)"
    by simp_all
  show ?case
  proof (cases "i < length (possiblePlaintext (words g ! cypherwordIndex))")
    case False
    with "2.prems"(2) idx show ?thesis
      by (subst (asm) wb_loop.simps) simp
  next
    case True
    define cy where "cy = cyphertext (words g ! cypherwordIndex)"
    define pl where "pl = possiblePlaintext (words g ! cypherwordIndex) ! i"
    define st1 where "st1 = st\<lparr>candidateTests := Suc (candidateTests st)\<rparr>"
    define body where "body =
           (if CanCypherAndLegendMakePlain cy m pl False then
              (if Suc cypherwordIndex = length (words g) then
                 (case IncorporateCypherToPlainMapInLegend cy pl m of
                    Inl f \<Rightarrow> Inl f
                  | Inr (ok, m') \<Rightarrow>
                      Inr (False, m',
                        if ok
                        then st1\<lparr>plainText :=
                               save_if_new (CypherToPlainString m' (initialCyphertext g))
                                 (plainText st1)\<rparr>
                        else st1))
               else
                 (let remainingSec = to_int (maxSec - (clock g (timeCalls st1) - startTime));
                      st2 = st1\<lparr>timeCalls := Suc (timeCalls st1)\<rparr>
                  in if remainingSec \<le> 0 then Inr (True, m, st2)
                     else
                       (case IncorporateCypherToPlainMapInLegend cy pl m of
                          Inl f \<Rightarrow> Inl f
                        | Inr (ok, nextGenMap) \<Rightarrow>
                            if ok then
                              (case DoWordBlockAttack g (Suc cypherwordIndex) nextGenMap
                                      remainingSec st2 of
                                 Inl f \<Rightarrow> Inl f
                               | Inr (r, m2, st3) \<Rightarrow> Inr (False, m, st3))
                            else Inr (False, m, st2))))
            else Inr (False, m, st1))"
    have run: "wb_loop g cypherwordIndex maxSec startTime i m st =
       (case body of
           Inl f \<Rightarrow> Inl f
         | Inr (broke, m1, st4) \<Rightarrow>
             if broke then Inr (False, m1, st4)
             else
               (let now = clock g (timeCalls st4);
                    st5 = st4\<lparr>timeCalls := Suc (timeCalls st4)\<rparr>
                in if now - startTime \<ge> maxSec then Inr (False, m1, st5)
                   else wb_loop g cypherwordIndex maxSec startTime (Suc i) m1 st5))"
      using idx True unfolding body_def cy_def pl_def st1_def
      by (subst wb_loop.simps) (simp add: Let_def)
    have body_m: "\<And>broke m1 st4. body = Inr (broke, m1, st4) \<Longrightarrow> m1 = m"
      using nl unfolding body_def
      by (auto simp: Let_def split: if_splits sum.splits prod.splits)
    from "2.prems"(2) run obtain broke m1 st4 where b: "body = Inr (broke, m1, st4)"
      by (cases body) auto
    then have m1: "m1 = m" by (rule body_m)
    show ?thesis
    proof (cases "broke \<or> clock g (timeCalls st4) - startTime \<ge> maxSec")
      case True
      with "2.prems"(2) run b m1 show ?thesis by (auto simp: Let_def split: if_splits)
    next
      case False
      with "2.prems"(2) run b
      have r: "wb_loop g cypherwordIndex maxSec startTime (Suc i) m1
                 (st4\<lparr>timeCalls := Suc (timeCalls st4)\<rparr>) = Inr (r, m', st')"
        by (auto simp: Let_def)
      from False have nb: "\<not> broke" and nt: "\<not> maxSec \<le> clock g (timeCalls st4) - startTime"
        by simp_all
      have "m' = m1"
        by (rule "2.IH"(2) [OF _ _ cy_def pl_def st1_def _ _ _ nb refl refl nt notlast r])
           (use idx True b in \<open>simp_all add: body_def\<close>)
      with m1 show ?thesis by simp
    qed
  qed
qed

text \<open>
  C2 fails on the last cypherword, where the candidate is incorporated into the
  legend of the caller itself. The input: one cypherword \<open>ab\<close> with the possible
  plaintexts \<open>xy\<close> and \<open>pq\<close>, and a legend that maps only \<open>c\<close>, to \<open>y\<close>. The candidate
  \<open>xy\<close> passes the test with holes; incorporating it stores \<open>a \<rightarrow> x\<close> and then fails,
  since \<open>y\<close> belongs to \<open>c\<close>. The legend keeps \<open>a \<rightarrow> x\<close>, the candidate \<open>pq\<close> is
  rejected against it, and the call returns with a changed legend and no answer.
\<close>

theorem DoWordBlockAttack_last_word_mutates:
  "DoWordBlockAttack
     \<lparr>words = [\<lparr>cyphertext = ''ab'', possiblePlaintext = [''xy'', ''pq'']\<rparr>],
      initialCyphertext = ''ab'', clock = (\<lambda>n. 0)\<rparr>
     0 (empty_legend[2 := CHR ''y'']) 10
     \<lparr>plainText = [], timeCalls = 0, candidateTests = 0\<rparr>
   = Inr (True, empty_legend[0 := CHR ''x'', 2 := CHR ''y''],
          \<lparr>plainText = [], timeCalls = 3, candidateTests = 2\<rparr>) \<and>
   empty_legend[0 := CHR ''x'', 2 := CHR ''y''] \<noteq> empty_legend[2 := CHR ''y'']"
  by code_simp

text \<open>
  The same happens after a successful branch: with the empty legend the first
  candidate is saved, its pairs stay in the legend, and the second candidate, a
  decoding just as valid, is rejected against them.
\<close>

lemma DoWordBlockAttack_last_word_second_candidate:
  "DoWordBlockAttack
     \<lparr>words = [\<lparr>cyphertext = ''ab'', possiblePlaintext = [''xy'', ''pq'']\<rparr>],
      initialCyphertext = ''ab'', clock = (\<lambda>n. 0)\<rparr>
     0 empty_legend 10
     \<lparr>plainText = [], timeCalls = 0, candidateTests = 0\<rparr>
   = Inr (True, empty_legend[0 := CHR ''x'', 1 := CHR ''y''],
          \<lparr>plainText = [''xy''], timeCalls = 3, candidateTests = 2\<rparr>)"
  by code_simp

end
